theory Spec2Isabelle
  imports Main "HOL-Library.Sublist"
begin

section \<open>Strings of the JavaScript runtime\<close>

text \<open>
  A JavaScript string is modelled as a \<^typ>\<open>string\<close>: every character is one code unit
  in the range 0..255 (Latin-1), so that \<open>length\<close> counts code units as JavaScript does.
  The built-ins below are \<open>String.prototype\<close> methods restricted to that range.
\<close>

definition toLowerCase_char :: "char \<Rightarrow> char" where
  "toLowerCase_char c =
     (let n = (of_char c :: nat)
      in if (65 \<le> n \<and> n \<le> 90) \<or> (192 \<le> n \<and> n \<le> 214) \<or> (216 \<le> n \<and> n \<le> 222)
         then char_of (n + 32) else c)"

definition toLowerCase :: "string \<Rightarrow> string" where
  "toLowerCase s = map toLowerCase_char s"

text \<open>\<open>s.split(sep)\<close> for a separator of one character: never the empty list.\<close>

fun split_on :: "char \<Rightarrow> string \<Rightarrow> string list" where
  "split_on sep [] = [[]]"
| "split_on sep (c # cs) =
     (if c = sep then [] # split_on sep cs
      else (case split_on sep cs of
              [] \<Rightarrow> [[c]]
            | w # ws \<Rightarrow> (c # w) # ws))"

text \<open>\<open>parts.join(sep)\<close>.\<close>

fun join_with :: "string \<Rightarrow> string list \<Rightarrow> string" where
  "join_with sep [] = []"
| "join_with sep [x] = x"
| "join_with sep (x # y # ys) = x @ sep @ join_with sep (y # ys)"

fun startsWith :: "string \<Rightarrow> string \<Rightarrow> bool" where
  "startsWith s [] = True"
| "startsWith [] (c # t) = False"
| "startsWith (x # s) (c # t) = (x = c \<and> startsWith s t)"

text \<open>\<open>s.includes(t)\<close>: \<open>t\<close> occurs in \<open>s\<close> as a contiguous run.\<close>

fun js_includes :: "string \<Rightarrow> string \<Rightarrow> bool" where
  "js_includes [] t = (t = [])"
| "js_includes (x # s) t = (startsWith (x # s) t \<or> js_includes s t)"

text \<open>White space and line terminators that \<open>trim\<close> removes, among the code units 0..255.\<close>

definition isWhiteSpace :: "char \<Rightarrow> bool" where
  "isWhiteSpace c = ((of_char c :: nat) \<in> {9, 10, 11, 12, 13, 32, 160})"

definition trim :: "string \<Rightarrow> string" where
  "trim s = rev (dropWhile isWhiteSpace (rev (dropWhile isWhiteSpace s)))"

text \<open>\<open>s.replace(pat, '')\<close> with a string pattern: only the first occurrence goes.\<close>

fun remove_first :: "string \<Rightarrow> string \<Rightarrow> string" where
  "remove_first [] pat = []"
| "remove_first (c # s) pat =
     (if startsWith (c # s) pat then drop (length pat) (c # s)
      else c # remove_first s pat)"

text \<open>\<open>s.slice(a, b)\<close> and \<open>xs.slice(a, b)\<close> for \<open>0 \<le> a\<close> and \<open>0 \<le> b\<close>.\<close>

definition slice :: "'a list \<Rightarrow> nat \<Rightarrow> nat \<Rightarrow> 'a list" where
  "slice xs a b = take (b - a) (drop a xs)"

section \<open>The path module (POSIX)\<close>

text \<open>
  \<open>path.extname\<close> as Node.js computes it: one pass from the last character to the
  first, stopping at the separator that starts the last path component.
\<close>

record extname_state =
  startDot :: int
  startPart :: int
  end_pos :: int
  matchedSlash :: bool
  preDotState :: int

fun extname_loop :: "string \<Rightarrow> nat \<Rightarrow> extname_state \<Rightarrow> extname_state" where
  "extname_loop p 0 st = st"
| "extname_loop p (Suc i) st =
     (if p ! i = CHR ''/'' then
        (if \<not> matchedSlash st then st\<lparr>startPart := int i + 1\<rparr>
         else extname_loop p i st)
      else
        (let st1 = (if end_pos st = - 1 then st\<lparr>end_pos := int i + 1, matchedSlash := False\<rparr>
                    else st);
             st2 = (if p ! i = CHR ''.'' then
                      (if startDot st1 = - 1 then st1\<lparr>startDot := int i\<rparr>
                       else if preDotState st1 \<noteq> 1 then st1\<lparr>preDotState := 1\<rparr>
                       else st1)
                    else if startDot st1 \<noteq> - 1 then st1\<lparr>preDotState := - 1\<rparr>
                    else st1)
         in extname_loop p i st2))"

definition extname :: "string \<Rightarrow> string" where
  "extname p =
     (let st = extname_loop p (length p)
                 \<lparr>startDot = - 1, startPart = 0, end_pos = - 1,
                  matchedSlash = True, preDotState = 0\<rparr>
      in if startDot st = - 1 \<or> end_pos st = - 1 \<or> preDotState st = 0 \<or>
            (preDotState st = 1 \<and> startDot st = end_pos st - 1 \<and>
             startDot st = startPart st + 1)
         then []
         else slice p (nat (startDot st)) (nat (end_pos st)))"

text \<open>\<open>path.basename\<close>: the last component, trailing separators ignored.\<close>

definition basename :: "string \<Rightarrow> string" where
  "basename p =
     rev (takeWhile (\<lambda>c. c \<noteq> CHR ''/'') (dropWhile (\<lambda>c. c = CHR ''/'') (rev p)))"

text \<open>
  \<open>normalizeString\<close>: the components of a path after \<open>.\<close>, \<open>..\<close> and empty
  components are resolved; \<open>res\<close> holds the components kept so far, last one first.
\<close>

fun normalizeString :: "bool \<Rightarrow> string list \<Rightarrow> string list \<Rightarrow> string list" where
  "normalizeString allowAboveRoot res [] = rev res"
| "normalizeString allowAboveRoot res (seg # segs) =
     (if seg = [] \<or> seg = ''.'' then normalizeString allowAboveRoot res segs
      else if seg = ''..'' then
        (if res \<noteq> [] \<and> hd res \<noteq> ''..'' then normalizeString allowAboveRoot (tl res) segs
         else if allowAboveRoot then normalizeString allowAboveRoot (''..'' # res) segs
         else normalizeString allowAboveRoot res segs)
      else normalizeString allowAboveRoot (seg # res) segs)"

definition isAbsolute :: "string \<Rightarrow> bool" where
  "isAbsolute p = (p \<noteq> [] \<and> hd p = CHR ''/'')"

definition normalize :: "string \<Rightarrow> string" where
  "normalize p =
     (if p = [] then ''.''
      else
        (let trailingSeparator = (last p = CHR ''/'');
             q = join_with ''/'' (normalizeString (\<not> isAbsolute p) [] (split_on CHR ''/'' p))
         in if q = [] then
              (if isAbsolute p then ''/'' else if trailingSeparator then ''./'' else ''.'')
            else (if isAbsolute p then ''/'' else []) @ q @
                 (if trailingSeparator then ''/'' else [])))"

text \<open>\<open>path.join(...args)\<close>.\<close>

definition path_join :: "string list \<Rightarrow> string" where
  "path_join args =
     (let parts = filter (\<lambda>a. a \<noteq> []) args
      in if parts = [] then ''.'' else normalize (join_with ''/'' parts))"

text \<open>
  \<open>path.relative(from, to)\<close> for absolute paths (\<open>process.cwd()\<close> is absolute, and so
  is everything joined to it): the common leading components are dropped, every
  component left in \<open>from\<close> becomes \<open>..\<close>.
\<close>

definition components :: "string \<Rightarrow> string list" where
  "components p = normalizeString False [] (split_on CHR ''/'' p)"

fun drop_common :: "string list \<Rightarrow> string list \<Rightarrow> string list \<times> string list" where
  "drop_common (x # xs) (y # ys) =
     (if x = y then drop_common xs ys else (x # xs, y # ys))"
| "drop_common xs ys = (xs, ys)"

definition relative :: "string \<Rightarrow> string \<Rightarrow> string" where
  "relative from to =
     (case drop_common (components from) (components to) of
        (f, t) \<Rightarrow> join_with ''/'' (replicate (length f) ''..'' @ t))"

section \<open>File Classifier\<close>

definition searchableExtensions :: "string list" where
  "searchableExtensions =
     [''.md'', ''.txt'', ''.js'', ''.ts'', ''.go'', ''.json'', ''.yaml'', ''.yml'', ''.tsx'', ''.jsx'',
      ''.graphql'', ''.gql'', ''.css'', ''.scss'', ''.html'', ''.vue'', ''.py'', ''.sh'', ''.env'',
      ''.toml'', ''.ini'', ''.conf'', ''.config'', ''.lock'']"

definition isSearchableFile :: "string \<Rightarrow> bool" where
  "isSearchableFile filename =
     (let ext = toLowerCase (extname filename)
      in ext \<in> set searchableExtensions \<or> filename = ''README'' \<or> filename = ''LICENSE'')"

section \<open>Title extraction\<close>

text \<open>The loop over the first ten lines, leaving at the first heading.\<close>

fun first_heading :: "string list \<Rightarrow> string option" where
  "first_heading [] = None"
| "first_heading (line # rest) =
     (if startsWith line ''# '' then Some (trim (drop 2 line)) else first_heading rest)"

definition dash_to_space :: "char \<Rightarrow> char" where
  "dash_to_space c = (if c = CHR ''-'' \<or> c = CHR ''_'' then CHR '' '' else c)"

definition getDocumentTitle :: "string \<Rightarrow> string \<Rightarrow> string" where
  "getDocumentTitle doc fileName =
     (case first_heading (slice (split_on CHR 0x0A doc) 0 10) of
        Some t \<Rightarrow> t
      | None \<Rightarrow> map dash_to_space (remove_first fileName (extname fileName)))"

section \<open>Regular expressions of the JavaScript runtime\<close>

text \<open>
  The search hands its terms to \<open>new RegExp\<close>. The pattern syntax modelled here is:
  pattern characters, \<open>.\<close>, the assertions \<open>^\<close> and \<open>$\<close>, alternation \<open>|\<close>,
  groups \<open>( )\<close>, and the quantifiers \<open>*\<close>, \<open>+\<close>, \<open>?\<close>, each greedy or, with a
  following \<open>?\<close>, lazy.
\<close>

datatype quantifier = QStar | QPlus | QOpt

datatype regex =
    REmpty
  | RChar char
  | RDot
  | RBol
  | REol
  | RSeq regex regex
  | RAlt regex regex
  | RGroup regex
  | RQuant quantifier bool regex

subsection \<open>Parsing a pattern\<close>

text \<open>
  What precedes the next character of the pattern decides whether a quantifier may follow:
  nothing or an assertion, an atom, a greedy quantifier (a \<open>?\<close> makes it lazy), or a
  lazy one.
\<close>

datatype quant_state = NoAtom | Atom | Greedy | Lazy

text \<open>
  An open disjunction: the alternatives closed so far and the terms of the current
  alternative, both last one first.
\<close>

type_synonym frame = "regex list \<times> regex list \<times> quant_state"

fun mk_alternative :: "regex list \<Rightarrow> regex" where
  "mk_alternative [] = REmpty"
| "mk_alternative [t] = t"
| "mk_alternative (t # u # ts) = RSeq t (mk_alternative (u # ts))"

fun mk_disjunction :: "regex list \<Rightarrow> regex" where
  "mk_disjunction [] = REmpty"
| "mk_disjunction [a] = a"
| "mk_disjunction (a # b # bs) = RAlt a (mk_disjunction (b # bs))"

fun close_frame :: "frame \<Rightarrow> regex" where
  "close_frame (alts, ts, q) = mk_disjunction (rev (mk_alternative (rev ts) # alts))"

text \<open>
  One pass over the pattern, \<open>stack\<close> holding the disjunctions of the groups still open.
  \<open>None\<close> is the \<open>SyntaxError\<close> the constructor throws: a quantifier with nothing to
  repeat, an unmatched \<open>)\<close>, an unterminated group.
\<close>

fun parse_loop :: "frame list \<Rightarrow> frame \<Rightarrow> string \<Rightarrow> regex option" where
  "parse_loop stack fr [] = (if stack = [] then Some (close_frame fr) else None)"
| "parse_loop stack (alts, ts, q) (c # cs) =
     (if c = CHR ''('' then parse_loop ((alts, ts, q) # stack) ([], [], NoAtom) cs
      else if c = CHR '')'' then
        (case stack of
           [] \<Rightarrow> None
         | (alts', ts', q') # stack' \<Rightarrow>
             parse_loop stack' (alts', RGroup (close_frame (alts, ts, q)) # ts', Atom) cs)
      else if c = CHR ''|'' then parse_loop stack (mk_alternative (rev ts) # alts, [], NoAtom) cs
      else if c = CHR ''*'' \<or> c = CHR ''+'' then
        (case (q, ts) of
           (Atom, t # ts') \<Rightarrow>
             parse_loop stack
               (alts, RQuant (if c = CHR ''*'' then QStar else QPlus) True t # ts', Greedy) cs
         | _ \<Rightarrow> None)
      else if c = CHR ''?'' then
        (case (q, ts) of
           (Atom, t # ts') \<Rightarrow> parse_loop stack (alts, RQuant QOpt True t # ts', Greedy) cs
         | (Greedy, RQuant k g t # ts') \<Rightarrow> parse_loop stack (alts, RQuant k False t # ts', Lazy) cs
         | _ \<Rightarrow> None)
      else if c = CHR ''^'' then parse_loop stack (alts, RBol # ts, NoAtom) cs
      else if c = CHR ''$'' then parse_loop stack (alts, REol # ts, NoAtom) cs
      else if c = CHR ''.'' then parse_loop stack (alts, RDot # ts, Atom) cs
      else parse_loop stack (alts, RChar c # ts, Atom) cs)"

definition parse_pattern :: "string \<Rightarrow> regex option" where
  "parse_pattern p = parse_loop [] ([], [], NoAtom) p"

text \<open>
  Patterns with a backslash escape, a character class, braces or a group that starts with
  \<open>?\<close> are outside the modelled syntax.
\<close>

definition modelled_syntax :: "string \<Rightarrow> bool" where
  "modelled_syntax p =
     (list_all (\<lambda>c. c \<notin> set [CHR 0x5C, CHR ''['', CHR '']'', CHR ''{'', CHR ''}'']) p \<and>
      \<not> js_includes p ''(?'')"

subsection \<open>Matching\<close>

text \<open>
  \<open>Canonicalize\<close> of the \<open>i\<close> flag, which compares upper-case forms. Within 0..255 the
  characters \<open>0xB5\<close> and \<open>0xFF\<close> have upper-case forms beyond 255 that no other character
  shares, and \<open>0xDF\<close> has none of one code unit: they compare equal to themselves only.
\<close>

definition canonicalize :: "char \<Rightarrow> char" where
  "canonicalize c =
     (let n = (of_char c :: nat)
      in if (97 \<le> n \<and> n \<le> 122) \<or> (224 \<le> n \<and> n \<le> 246) \<or> (248 \<le> n \<and> n \<le> 254)
         then char_of (n - 32) else c)"

definition char_matches :: "bool \<Rightarrow> char \<Rightarrow> char \<Rightarrow> bool" where
  "char_matches ignoreCase a c =
     (if ignoreCase then canonicalize a = canonicalize c else a = c)"

definition isLineTerminator :: "char \<Rightarrow> bool" where
  "isLineTerminator c = (c = CHR 0x0A \<or> c = CHR 0x0D)"

fun regex_rank :: "regex \<Rightarrow> nat" where
  "regex_rank (RSeq a b) = Suc (regex_rank a + regex_rank b)"
| "regex_rank (RAlt a b) = Suc (regex_rank a + regex_rank b)"
| "regex_rank (RGroup r) = Suc (regex_rank r)"
| "regex_rank (RQuant q g r) = (if q = QPlus then 2 else 1) + regex_rank r"
| "regex_rank _ = 0"

text \<open>
  The backtracking matcher: \<open>ends ic r s x\<close> lists, in the order in which backtracking
  tries them, the indices at which a match of \<open>r\<close> that starts at index \<open>x\<close> of \<open>s\<close> can
  end. An iteration of a quantifier with minimum 0 that matches the empty string is
  rejected, as \<open>RepeatMatcher\<close> does; every other iteration ends further on and within
  the string (\<open>ends_bounds\<close>).
\<close>

function ends :: "bool \<Rightarrow> regex \<Rightarrow> string \<Rightarrow> nat \<Rightarrow> nat list" where
  "ends ic REmpty s x = [x]"
| "ends ic (RChar c) s x = (if x < length s \<and> char_matches ic (s ! x) c then [Suc x] else [])"
| "ends ic RDot s x = (if x < length s \<and> \<not> isLineTerminator (s ! x) then [Suc x] else [])"
| "ends ic RBol s x = (if x = 0 then [x] else [])"
| "ends ic REol s x = (if x = length s then [x] else [])"
| "ends ic (RSeq a b) s x = concat (map (ends ic b s) (ends ic a s x))"
| "ends ic (RAlt a b) s x = ends ic a s x @ ends ic b s x"
| "ends ic (RGroup r) s x = ends ic r s x"
| "ends ic (RQuant QOpt g r) s x =
     (let more = filter (\<lambda>y. y \<noteq> x) (ends ic r s x)
      in if g then more @ [x] else x # more)"
| "ends ic (RQuant QPlus g r) s x =
     concat (map (ends ic (RQuant QStar g r) s) (ends ic r s x))"
| "ends ic (RQuant QStar g r) s x =
     (let more = concat (map (\<lambda>y. if x < y \<and> y \<le> length s
                                    then ends ic (RQuant QStar g r) s y else [])
                             (ends ic r s x))
      in if g then more @ [x] else x # more)"
  by pat_completeness auto
termination
  by (relation "measures [\<lambda>(ic, r, s, x). regex_rank r, \<lambda>(ic, r, s, x). length s - x]") auto

text \<open>The first match that starts at index \<open>x\<close>, if any: where it ends.\<close>

definition match_at :: "bool \<Rightarrow> regex \<Rightarrow> string \<Rightarrow> nat \<Rightarrow> nat option" where
  "match_at ic r s x = (case ends ic r s x of [] \<Rightarrow> None | e # _ \<Rightarrow> Some e)"

text \<open>
  A global scan, as \<open>RegExp.prototype[Symbol.match]\<close> and
  \<open>RegExp.prototype[Symbol.replace]\<close> run it: from \<open>lastIndex\<close> = \<open>x\<close>, the first index
  at which a match starts, then on from the end of that match, one further when the match
  is empty. The result lists every match as (start, end). A match never ends before it
  starts (\<open>match_at_bounds\<close>), which is what the last branch says.
\<close>

function match_all :: "bool \<Rightarrow> regex \<Rightarrow> string \<Rightarrow> nat \<Rightarrow> (nat \<times> nat) list" where
  "match_all ic r s x =
     (if length s < x then []
      else (case match_at ic r s x of
              None \<Rightarrow> match_all ic r s (Suc x)
            | Some e \<Rightarrow>
                (x, e) # (if e = x then match_all ic r s (Suc e)
                          else if x < e then match_all ic r s e
                          else [])))"
  by pat_completeness auto
termination
  by (relation "measure (\<lambda>(ic, r, s, x). Suc (length s) - x)") auto

text \<open>
  \<open>s.replace(re, '**$1**')\<close> for a global \<open>re\<close> whose group 1 spans the whole pattern:
  every match is put between two pairs of asterisks.
\<close>

fun replace_matches :: "string \<Rightarrow> (nat \<times> nat) list \<Rightarrow> nat \<Rightarrow> string" where
  "replace_matches s [] nextSourcePosition = drop nextSourcePosition s"
| "replace_matches s ((position, e) # ms) nextSourcePosition =
     (if nextSourcePosition \<le> position
      then slice s nextSourcePosition position @ ''**'' @ slice s position e @ ''**'' @
           replace_matches s ms e
      else replace_matches s ms nextSourcePosition)"

subsection \<open>The engine as the search uses it\<close>

text \<open>
  The search uses the engine in two ways:
  \<^item> \<open>count_matches E p\<close> is \<open>new RegExp(p, 'g')\<close> followed by
    \<open>(s.match(re) || []).length\<close>;
  \<^item> \<open>highlight_matches E p\<close> is \<open>new RegExp(p, 'gi')\<close> followed by
    \<open>s.replace(re, '**$1**')\<close>.
  \<open>None\<close> is the \<open>SyntaxError\<close> of the constructor.
\<close>

record regexp_engine =
  count_matches :: "string \<Rightarrow> (string \<Rightarrow> nat) option"
  highlight_matches :: "string \<Rightarrow> (string \<Rightarrow> string) option"

text \<open>
  The engine of the runtime on the modelled syntax; \<open>beyond\<close> stands for what it does with
  every other pattern.
\<close>

definition js_regexp :: "regexp_engine \<Rightarrow> regexp_engine" where
  "js_regexp beyond =
     \<lparr>count_matches = (\<lambda>p.
        if modelled_syntax p then
          (case parse_pattern p of
             None \<Rightarrow> None
           | Some r \<Rightarrow> Some (\<lambda>s. length (match_all False r s 0)))
        else count_matches beyond p),
      highlight_matches = (\<lambda>p.
        if modelled_syntax p then
          (case parse_pattern p of
             None \<Rightarrow> None
           | Some (RGroup r) \<Rightarrow> Some (\<lambda>s. replace_matches s (match_all True (RGroup r) s 0) 0)
           | Some _ \<Rightarrow> highlight_matches beyond p)
        else highlight_matches beyond p)\<rparr>"

text \<open>An engine that rejects every pattern, to close \<open>js_regexp\<close> with.\<close>

definition no_regexp :: regexp_engine where
  "no_regexp = \<lparr>count_matches = (\<lambda>p. None), highlight_matches = (\<lambda>p. None)\<rparr>"

section \<open>Document Matcher and Excerpt Builder\<close>

text \<open>What the search and the reader can catch; a system error carries its message.\<close>

datatype js_error = SyntaxError | SystemError string

record SearchResult =
  title :: string
  path :: string
  repository :: string
  score :: nat
  excerpt :: string
  matchCount :: nat

record MatchContext =
  lineNumber :: nat
  content :: string
  matchLine :: string

text \<open>The highlighting loop of \<open>createExcerpt\<close>, one regular expression per term.\<close>

fun highlight_loop :: "regexp_engine \<Rightarrow> string list \<Rightarrow> string \<Rightarrow> js_error + string" where
  "highlight_loop E [] ex = Inr ex"
| "highlight_loop E (term # rest) ex =
     (case highlight_matches E (''('' @ term @ '')'') of
        None \<Rightarrow> Inl SyntaxError
      | Some replace \<Rightarrow> highlight_loop E rest (replace ex))"

definition createExcerpt ::
  "regexp_engine \<Rightarrow> MatchContext list \<Rightarrow> string list \<Rightarrow> js_error + string" where
  "createExcerpt E relevantLines searchTerms =
     (if length relevantLines = 0 then Inr []
      else
        (case highlight_loop E searchTerms (content (hd relevantLines)) of
           Inl err \<Rightarrow> Inl err
         | Inr ex \<Rightarrow> Inr (if 500 < length ex then slice ex 0 500 @ ''...'' else ex)))"

text \<open>The scoring loop of \<open>findMatches\<close>.\<close>

fun score_loop :: "regexp_engine \<Rightarrow> string \<Rightarrow> string list \<Rightarrow> nat \<Rightarrow> js_error + nat" where
  "score_loop E contentLower [] sc = Inr sc"
| "score_loop E contentLower (term # rest) sc =
     (case count_matches E term of
        None \<Rightarrow> Inl SyntaxError
      | Some termCount \<Rightarrow> score_loop E contentLower rest (sc + termCount contentLower))"

text \<open>\<open>searchTerms.some(term => lineLower.includes(term))\<close>.\<close>

definition line_matches :: "string list \<Rightarrow> string \<Rightarrow> bool" where
  "line_matches searchTerms line =
     list_ex (\<lambda>term. js_includes (toLowerCase line) term) searchTerms"

definition context_of :: "string list \<Rightarrow> nat \<Rightarrow> MatchContext" where
  "context_of lines i =
     \<lparr>lineNumber = i + 1,
      content = join_with [CHR 0x0A]
                  (slice lines (if i < 2 then 0 else i - 2) (min (length lines) (i + 3))),
      matchLine = lines ! i\<rparr>"

definition relevantLinesOf :: "string list \<Rightarrow> string list \<Rightarrow> MatchContext list" where
  "relevantLinesOf lines searchTerms =
     map (context_of lines)
       (filter (\<lambda>i. line_matches searchTerms (lines ! i)) [0..<length lines])"

definition findMatches ::
  "regexp_engine \<Rightarrow> string \<Rightarrow> string \<Rightarrow> string list \<Rightarrow> string \<Rightarrow> string \<Rightarrow>
   js_error + SearchResult list" where
  "findMatches E cwd doc searchTerms filePath repo =
     (let lines = split_on CHR 0x0A doc;
          contentLower = toLowerCase doc
      in case score_loop E contentLower searchTerms 0 of
           Inl err \<Rightarrow> Inl err
         | Inr sc \<Rightarrow>
             if sc = 0 then Inr []
             else
               (let relevantLines = relevantLinesOf lines searchTerms;
                    fileName = basename filePath;
                    ttl = getDocumentTitle doc fileName
                in case createExcerpt E relevantLines searchTerms of
                     Inl err \<Rightarrow> Inl err
                   | Inr ex \<Rightarrow>
                       Inr [\<lparr>title = ttl,
                             path = relative (path_join [cwd, ''repos'']) filePath,
                             repository = repo,
                             score = sc,
                             excerpt = ex,
                             matchCount = length relevantLines\<rparr>]))"

section \<open>The file system\<close>

text \<open>
  The file system is a tree. A file either holds bytes, which \<open>fs.readFile\<close> decodes,
  or makes \<open>fs.readFile\<close> throw; a directory either yields its entries to
  \<open>fs.readdir\<close>, in listing order, or makes it throw; \<open>Other\<close> is an entry that is
  neither a file nor a directory (a dangling symbolic link).
\<close>

datatype node =
    File string
  | UnreadableFile
  | Dir "(string \<times> node) list"
  | UnlistableDir
  | Other

fun isDirectory :: "node \<Rightarrow> bool" where
  "isDirectory (Dir entries) = True"
| "isDirectory UnlistableDir = True"
| "isDirectory _ = False"

fun isFile :: "node \<Rightarrow> bool" where
  "isFile (File doc) = True"
| "isFile UnreadableFile = True"
| "isFile _ = False"

text \<open>Following an absolute path from the root, component by component.\<close>

datatype lookup = Found node | Missing | NotADirectory

fun fs_lookup :: "node \<Rightarrow> string list \<Rightarrow> lookup"
  and fs_lookup_in :: "(string \<times> node) list \<Rightarrow> string \<Rightarrow> string list \<Rightarrow> lookup" where
  "fs_lookup n [] = Found n"
| "fs_lookup (Dir entries) (seg # segs) = fs_lookup_in entries seg segs"
| "fs_lookup UnlistableDir (seg # segs) = Missing"
| "fs_lookup Other (seg # segs) = Missing"
| "fs_lookup _ (seg # segs) = NotADirectory"
| "fs_lookup_in [] seg segs = Missing"
| "fs_lookup_in ((name, child) # entries) seg segs =
     (if name = seg then fs_lookup child segs else fs_lookup_in entries seg segs)"

definition quoted :: "string \<Rightarrow> string" where
  "quoted p = [CHR 0x27] @ p @ [CHR 0x27]"

text \<open>
  Decoding with the encoding \<open>'utf-8'\<close> never throws: every maximal part of the bytes
  that is not well-formed UTF-8 becomes one replacement character U+FFFD. \<open>utf8_items\<close>
  is the decoder's pass over the bytes: \<open>needed\<close> continuation bytes are still to
  come, each within \<open>lower\<close> and \<open>upper\<close>, for the code point begun in \<open>cp\<close>.
\<close>

datatype utf8_item = CodePoint nat | Malformed

fun utf8_items :: "nat \<Rightarrow> nat \<Rightarrow> nat \<Rightarrow> nat \<Rightarrow> nat list \<Rightarrow> utf8_item list" where
  "utf8_items needed cp lower upper [] = (if needed = 0 then [] else [Malformed])"
| "utf8_items needed cp lower upper (b # bs) =
     (if needed = 0 then
        (if b \<le> 0x7F then CodePoint b # utf8_items 0 0 0x80 0xBF bs
         else if 0xC2 \<le> b \<and> b \<le> 0xDF then utf8_items 1 (b - 0xC0) 0x80 0xBF bs
         else if 0xE0 \<le> b \<and> b \<le> 0xEF then
           utf8_items 2 (b - 0xE0) (if b = 0xE0 then 0xA0 else 0x80)
             (if b = 0xED then 0x9F else 0xBF) bs
         else if 0xF0 \<le> b \<and> b \<le> 0xF4 then
           utf8_items 3 (b - 0xF0) (if b = 0xF0 then 0x90 else 0x80)
             (if b = 0xF4 then 0x8F else 0xBF) bs
         else Malformed # utf8_items 0 0 0x80 0xBF bs)
      else if b < lower \<or> upper < b then Malformed # utf8_items 0 0 0x80 0xBF (b # bs)
      else if needed = 1 then CodePoint (cp * 64 + (b - 0x80)) # utf8_items 0 0 0x80 0xBF bs
      else utf8_items (needed - 1) (cp * 64 + (b - 0x80)) 0x80 0xBF bs)"

definition decoded_items :: "string \<Rightarrow> utf8_item list" where
  "decoded_items bytes = utf8_items 0 0 0x80 0xBF (map of_char bytes)"

text \<open>The bytes are well-formed UTF-8: they can be decoded as text without loss.\<close>

definition wellFormedUTF8 :: "string \<Rightarrow> bool" where
  "wellFormedUTF8 bytes = (Malformed \<notin> set (decoded_items bytes))"

text \<open>
  The code units of the decoded text. The replacement character lies beyond the code units
  0..255 of the strings modelled here, as every code point from U+0100 on does: each such
  code unit is stood for by \<open>0xFF\<close>, which the operations on strings treat as they treat
  the replacement character (no other case, not white space, not a line terminator). A
  code point from U+10000 on is two code units.
\<close>

fun code_units :: "utf8_item \<Rightarrow> string" where
  "code_units Malformed = [CHR 0xFF]"
| "code_units (CodePoint cp) =
     (if cp < 0x100 then [char_of cp]
      else if cp < 0x10000 then [CHR 0xFF]
      else [CHR 0xFF, CHR 0xFF])"

definition utf8_decode :: "string \<Rightarrow> string" where
  "utf8_decode bytes = concat (map code_units (decoded_items bytes))"

text \<open>
  \<open>fs.readdir\<close> and \<open>fs.readFile\<close> on the node that the path \<open>p\<close> names: the entries
  or the decoded text, or the error thrown.
\<close>

fun readdir :: "node \<Rightarrow> string \<Rightarrow> js_error + (string \<times> node) list" where
  "readdir (Dir entries) p = Inr entries"
| "readdir UnlistableDir p = Inl (SystemError (''EACCES: permission denied, scandir '' @ quoted p))"
| "readdir Other p = Inl (SystemError (''ENOENT: no such file or directory, scandir '' @ quoted p))"
| "readdir _ p = Inl (SystemError (''ENOTDIR: not a directory, scandir '' @ quoted p))"

fun readFile :: "node \<Rightarrow> string \<Rightarrow> js_error + string" where
  "readFile (File bytes) p = Inr (utf8_decode bytes)"
| "readFile UnreadableFile p = Inl (SystemError (''EACCES: permission denied, open '' @ quoted p))"
| "readFile UnlistableDir p = Inl (SystemError (''EACCES: permission denied, open '' @ quoted p))"
| "readFile Other p = Inl (SystemError (''ENOENT: no such file or directory, open '' @ quoted p))"
| "readFile _ p = Inl (SystemError ''EISDIR: illegal operation on a directory, read'')"

text \<open>
  The node that an absolute path names. A path that ends with a separator names a
  directory only.
\<close>

definition fs_resolve :: "node \<Rightarrow> string \<Rightarrow> lookup" where
  "fs_resolve root p =
     (case fs_lookup root (components p) of
        Found n \<Rightarrow>
          if p \<noteq> [] \<and> last p = CHR ''/'' \<and> \<not> isDirectory n
          then (if n = Other then Missing else NotADirectory)
          else Found n
      | Missing \<Rightarrow> Missing
      | NotADirectory \<Rightarrow> NotADirectory)"

text \<open>\<open>fs.stat(p)\<close> from the root: the node at \<open>p\<close>, or the error thrown.\<close>

definition fs_stat :: "node \<Rightarrow> string \<Rightarrow> js_error + node" where
  "fs_stat root p =
     (case fs_resolve root p of
        Found Other \<Rightarrow> Inl (SystemError (''ENOENT: no such file or directory, stat '' @ quoted p))
      | Found n \<Rightarrow> Inr n
      | Missing \<Rightarrow> Inl (SystemError (''ENOENT: no such file or directory, stat '' @ quoted p))
      | NotADirectory \<Rightarrow> Inl (SystemError (''ENOTDIR: not a directory, stat '' @ quoted p)))"

text \<open>\<open>fs.readFile(p, 'utf-8')\<close> from the root.\<close>

definition fs_readFile :: "node \<Rightarrow> string \<Rightarrow> js_error + string" where
  "fs_readFile root p =
     (case fs_resolve root p of
        Found n \<Rightarrow> readFile n p
      | Missing \<Rightarrow> Inl (SystemError (''ENOENT: no such file or directory, open '' @ quoted p))
      | NotADirectory \<Rightarrow> Inl (SystemError (''ENOTDIR: not a directory, open '' @ quoted p)))"

section \<open>Tree Walker\<close>

definition excludedDirectory :: "string \<Rightarrow> bool" where
  "excludedDirectory name =
     (startsWith name ''.'' \<or> name = ''node_modules'' \<or> name = ''.next'' \<or>
      name = ''dist'' \<or> name = ''build'' \<or> name = ''storybook-static'')"

text \<open>
  \<open>searchInDirectory\<close> is given, with \<open>dirPath\<close>, the node that the path names;
  \<open>searchEntries\<close> is its loop over the entries and \<open>searchEntry\<close> the body of that
  loop. The outer \<open>catch\<close> logs the error of a listing that fails and leaves \<open>results\<close>
  empty; the inner one skips a file whose reading or matching throws.
\<close>

function searchInDirectory ::
    "regexp_engine \<Rightarrow> string \<Rightarrow> node \<Rightarrow> string \<Rightarrow> string \<Rightarrow> string list \<Rightarrow> SearchResult list"
  and searchEntries ::
    "regexp_engine \<Rightarrow> string \<Rightarrow> (string \<times> node) list \<Rightarrow> string \<Rightarrow> string \<Rightarrow> string list \<Rightarrow>
     SearchResult list"
  and searchEntry ::
    "regexp_engine \<Rightarrow> string \<Rightarrow> string \<Rightarrow> node \<Rightarrow> string \<Rightarrow> string \<Rightarrow> string list \<Rightarrow>
     SearchResult list" where
  "searchInDirectory E cwd n dirPath repo searchTerms =
     (case readdir n dirPath of
        Inl err \<Rightarrow> []
      | Inr entries \<Rightarrow> searchEntries E cwd entries dirPath repo searchTerms)"
| "searchEntries E cwd [] dirPath repo searchTerms = []"
| "searchEntries E cwd ((name, entry) # entries) dirPath repo searchTerms =
     searchEntry E cwd name entry dirPath repo searchTerms @
     searchEntries E cwd entries dirPath repo searchTerms"
| "searchEntry E cwd name entry dirPath repo searchTerms =
     (let fullPath = path_join [dirPath, name]
      in if isDirectory entry \<and> \<not> startsWith name ''.'' \<and>
            name \<noteq> ''node_modules'' \<and> name \<noteq> ''.next'' \<and>
            name \<noteq> ''dist'' \<and> name \<noteq> ''build'' \<and>
            name \<noteq> ''storybook-static''
         then searchInDirectory E cwd entry fullPath repo searchTerms
         else if isFile entry \<and> isSearchableFile name then
           (case readFile entry fullPath of
              Inl err \<Rightarrow> []
            | Inr doc \<Rightarrow>
                (case findMatches E cwd doc searchTerms fullPath repo of
                   Inl err \<Rightarrow> []
                 | Inr matches \<Rightarrow> matches))
         else [])"
  by pat_completeness auto
termination
  by (relation "measure (\<lambda>a. case a of
          Inl (E, cwd, n, rest) \<Rightarrow> size n
        | Inr (Inl (E, cwd, entries, rest)) \<Rightarrow> size_list (size_prod (\<lambda>name. 0) size) entries
        | Inr (Inr (E, cwd, name, n, rest)) \<Rightarrow> Suc (size n))")
     (auto elim: readdir.elims)

section \<open>Repository Search Orchestrator\<close>

text \<open>
  \<open>Array.prototype.sort\<close> with a comparator is a stable sort: an element goes before the
  first one that the comparator does not put ahead of it.
\<close>

fun insert_by :: "('a \<Rightarrow> 'a \<Rightarrow> int) \<Rightarrow> 'a \<Rightarrow> 'a list \<Rightarrow> 'a list" where
  "insert_by cmp x [] = [x]"
| "insert_by cmp x (y # ys) =
     (if cmp x y \<le> 0 then x # y # ys else y # insert_by cmp x ys)"

definition js_sort :: "('a \<Rightarrow> 'a \<Rightarrow> int) \<Rightarrow> 'a list \<Rightarrow> 'a list" where
  "js_sort cmp xs = foldr (insert_by cmp) xs []"

definition repositories :: "string list" where
  "repositories =
     [''docs'', ''core'', ''identity'', ''frontend'', ''backend'', ''deso-js'', ''deso-chat'',
      ''deso-ui'', ''graphql'']"

text \<open>The loop over the repositories: what \<open>results\<close> holds before it is sorted.\<close>

fun search_repositories ::
  "regexp_engine \<Rightarrow> node \<Rightarrow> string \<Rightarrow> string list \<Rightarrow> string list \<Rightarrow> SearchResult list" where
  "search_repositories E fs cwd searchTerms [] = []"
| "search_repositories E fs cwd searchTerms (repo # rest) =
     (let repoPath = path_join [path_join [cwd, ''repos''], repo]
      in (case fs_stat fs repoPath of
            Inl err \<Rightarrow> []
          | Inr stats \<Rightarrow>
              if isDirectory stats
              then searchInDirectory E cwd stats repoPath repo searchTerms
              else [])
         @ search_repositories E fs cwd searchTerms rest)"

definition searchTermsOf :: "string \<Rightarrow> string list" where
  "searchTermsOf query = split_on CHR '' '' (toLowerCase query)"

definition collectedResults :: "regexp_engine \<Rightarrow> node \<Rightarrow> string \<Rightarrow> string \<Rightarrow> SearchResult list" where
  "collectedResults E fs cwd query =
     search_repositories E fs cwd (searchTermsOf query) repositories"

definition searchRepositoryDocuments ::
  "regexp_engine \<Rightarrow> node \<Rightarrow> string \<Rightarrow> string \<Rightarrow> SearchResult list" where
  "searchRepositoryDocuments E fs cwd query =
     js_sort (\<lambda>a b. int (score b) - int (score a)) (collectedResults E fs cwd query)"

section \<open>Document Reader\<close>

text \<open>
  \<open>repository\<close> is \<open>None\<close> when the argument is absent; the empty string is as falsy as
  \<open>undefined\<close>. The result is the text of the response.
\<close>

definition truthy :: "string option \<Rightarrow> bool" where
  "truthy v = (case v of None \<Rightarrow> False | Some s \<Rightarrow> s \<noteq> [])"

definition resolvedPath :: "string \<Rightarrow> string \<Rightarrow> string option \<Rightarrow> string" where
  "resolvedPath cwd docPath repo =
     (if truthy repo then path_join [cwd, ''repos'', the repo, docPath]
      else path_join [cwd, ''repos'', docPath])"

definition nl :: string where
  "nl = [CHR 0x0A]"

definition readRepositoryDocument :: "node \<Rightarrow> string \<Rightarrow> string \<Rightarrow> string option \<Rightarrow> string" where
  "readRepositoryDocument fs cwd docPath repo =
     (let fullPath = resolvedPath cwd docPath repo
      in case fs_readFile fs fullPath of
           Inr doc \<Rightarrow>
             (let fileName = basename fullPath;
                  ttl = getDocumentTitle doc fileName
              in ''# '' @ ttl @ nl @ nl @
                 ''**Path:** '' @ [CHR 0x60] @ docPath @ [CHR 0x60] @ nl @
                 ''**Repository:** '' @ (if truthy repo then the repo else ''auto-detected'') @ nl @
                 ''**File:** '' @ fileName @ nl @ nl @
                 ''---'' @ nl @ nl @ doc)
         | Inl err \<Rightarrow>
             ''# Document Read Error'' @ nl @ nl @
             ''**Path:** '' @ [CHR 0x22] @ docPath @ [CHR 0x22] @ nl @
             ''**Repository:** '' @ (if truthy repo then the repo else ''auto-detect'') @ nl @ nl @
             ''Error reading document: '' @
               (case err of SystemError message \<Rightarrow> message | SyntaxError \<Rightarrow> []) @ nl @ nl @
             ''**Available repositories:** docs, core, identity, frontend, backend, deso-js, deso-chat, deso-ui, graphql'' @
             nl @ nl @
             ''Try using the '' @ [CHR 0x60] @ ''repository_search'' @ [CHR 0x60] @
             '' tool first to find the correct document path.'')"

section \<open>Notions the properties are stated with\<close>

text \<open>
  A file system with entries removed, at any depth: \<open>prune rm n\<close> drops every entry
  \<open>(name, child)\<close> for which \<open>rm name child\<close> holds, together with all that lies under it.
\<close>

fun prune :: "(string \<Rightarrow> node \<Rightarrow> bool) \<Rightarrow> node \<Rightarrow> node"
  and prune_entries ::
    "(string \<Rightarrow> node \<Rightarrow> bool) \<Rightarrow> (string \<times> node) list \<Rightarrow> (string \<times> node) list" where
  "prune rm (Dir entries) = Dir (prune_entries rm entries)"
| "prune rm n = n"
| "prune_entries rm [] = []"
| "prune_entries rm ((name, n) # entries) =
     (if rm name n then prune_entries rm entries
      else (name, prune rm n) # prune_entries rm entries)"

text \<open>A file that the File Classifier does not accept.\<close>

definition ineligibleFile :: "string \<Rightarrow> node \<Rightarrow> bool" where
  "ineligibleFile name n = (isFile n \<and> \<not> isSearchableFile name)"

text \<open>A directory that is hidden or has one of the excluded names.\<close>

definition excludedEntry :: "string \<Rightarrow> node \<Rightarrow> bool" where
  "excludedEntry name n = (isDirectory n \<and> excludedDirectory name)"

text \<open>A file that cannot be read, a directory that cannot be listed.\<close>

definition failingEntry :: "string \<Rightarrow> node \<Rightarrow> bool" where
  "failingEntry name n =
     ((isFile n \<and> isl (readFile n name)) \<or> (isDirectory n \<and> isl (readdir n name)))"

text \<open>
  The number of non-overlapping occurrences of \<open>t\<close> in \<open>s\<close>, counted from the left, as
  the specification words the score. It is stated for a non-empty \<open>t\<close>.
\<close>

fun substring_occurrences :: "string \<Rightarrow> string \<Rightarrow> nat" where
  "substring_occurrences t [] = 0"
| "substring_occurrences t (c # s) =
     (if t \<noteq> [] \<and> startsWith (c # s) t
      then Suc (substring_occurrences t (drop (length t) (c # s)))
      else substring_occurrences t s)"

text \<open>
  The syntax characters of a pattern, and a term that has none: every character of a
  literal term is a pattern character, which matches itself.
\<close>

definition syntaxCharacter :: "char \<Rightarrow> bool" where
  "syntaxCharacter c =
     (c \<in> set [CHR ''^'', CHR ''$'', CHR 0x5C, CHR ''.'', CHR ''*'', CHR ''+'', CHR ''?'',
               CHR ''('', CHR '')'', CHR ''['', CHR '']'', CHR ''{'', CHR ''}'', CHR ''|''])"

definition literal_term :: "string \<Rightarrow> bool" where
  "literal_term t = (t \<noteq> [] \<and> list_all (\<lambda>c. \<not> syntaxCharacter c) t)"

text \<open>A repository and a file system to evaluate the search and the reader on.\<close>

definition sample_docs :: node where
  "sample_docs =
     Dir [(''a.md'', File ''I like c++''),
          (''b.png'', File ''c c c c''),
          (''locked.md'', UnreadableFile),
          (''node_modules'', Dir [(''c.md'', File ''c c c'')]),
          (''.git'', Dir [(''HEAD.txt'', File ''c'')]),
          (''private'', UnlistableDir),
          (''sub'', Dir [(''d.md'', File ''xccc''),
                         (''build'', Dir [(''out.js'', File ''cc'')]),
                         (''e.txt'', File ''ab c'')])]"

definition sample_fs :: node where
  "sample_fs =
     Dir [(''etc'', Dir [(''passwd'', File ''root:x:0:0'')]),
          (''app'', Dir
             [(''deso-mcp.js'', File ''server''),
              (''repos'', Dir
                 [(''docs'', sample_docs),
                  (''core'', Dir [(''README'', File ''core c'')])])])]"

section \<open>Auxiliary facts\<close>

lemmas searchEntry_def = searchEntry.simps

lemmas searchInDirectory_def = searchInDirectory.simps

declare searchEntry.simps [simp del]

declare searchInDirectory.simps [simp del]

lemma searchInDirectory_Dir [simp]:
  "searchInDirectory E cwd (Dir entries) dirPath repo searchTerms
     = searchEntries E cwd entries dirPath repo searchTerms"
  by (simp add: searchInDirectory_def)

lemma searchInDirectory_unlisted [simp]:
  "isl (readdir n dirPath) \<Longrightarrow> searchInDirectory E cwd n dirPath repo searchTerms = []"
  by (cases "readdir n dirPath") (simp_all add: searchInDirectory_def)


subsection \<open>Pruned file systems\<close>

lemma isDirectory_prune: "isDirectory (prune rm n) = isDirectory n"
  by (cases n) simp_all

lemma isFile_prune: "isFile (prune rm n) = isFile n"
  by (cases n) simp_all

lemma prune_File: "isFile n \<Longrightarrow> prune rm n = n"
  by (cases n) simp_all

text \<open>
  If the loop body yields nothing for every entry that \<open>rm\<close> selects, the walk over the
  pruned tree yields what the walk over the whole tree yields.
\<close>

lemma search_prune:
  assumes skip: "\<forall>name n dirPath. rm name n \<longrightarrow> searchEntry E cwd name n dirPath repo ts = []"
  shows "searchInDirectory E cwd (prune rm n) dirPath repo ts
           = searchInDirectory E cwd n dirPath repo ts"
    and "searchEntries E cwd (prune_entries rm entries) dirPath repo ts
           = searchEntries E cwd entries dirPath repo ts"
  using skip
proof (induction rm n and rm entries arbitrary: dirPath and dirPath
       rule: prune_prune_entries.induct)
  case (4 rm name n entries)
  show ?case
  proof (cases "rm name n")
    case True
    then show ?thesis using 4 by simp
  next
    case False
    have "searchEntry E cwd name (prune rm n) dirPath repo ts
            = searchEntry E cwd name n dirPath repo ts"
      using 4(2)[OF False 4(4)]
      by (simp add: searchEntry_def isDirectory_prune isFile_prune prune_File Let_def)
    then show ?thesis using False 4(3)[OF False 4(4)] by simp
  qed
qed simp_all

subsection \<open>A term that the constructor rejects\<close>

lemma score_loop_rejected:
  "term \<in> set searchTerms \<Longrightarrow> count_matches E term = None \<Longrightarrow>
   score_loop E contentLower searchTerms sc = Inl SyntaxError"
  by (induction searchTerms arbitrary: sc) (auto split: option.splits)

lemma findMatches_rejected:
  "term \<in> set searchTerms \<Longrightarrow> count_matches E term = None \<Longrightarrow>
   findMatches E cwd doc searchTerms filePath repo = Inl SyntaxError"
  by (simp add: findMatches_def score_loop_rejected)

lemma search_rejected:
  assumes "term \<in> set searchTerms" "count_matches E term = None"
  shows "searchInDirectory E cwd n dirPath repo searchTerms = []"
    and "searchEntries E cwd entries dirPath repo searchTerms = []"
    and "searchEntry E cwd name n dirPath repo searchTerms = []"
  using assms
proof (induction E cwd n dirPath repo searchTerms and E cwd entries dirPath repo searchTerms
         and E cwd name n dirPath repo searchTerms
       rule: searchInDirectory_searchEntries_searchEntry.induct)
  case (1 E cwd n dirPath repo searchTerms)
  then show ?case
    by (simp add: searchInDirectory_def split: sum.splits)
next
  case (4 E cwd name entry dirPath repo searchTerms)
  then show ?case
    by (auto simp: searchEntry_def Let_def findMatches_rejected split: sum.splits)
qed simp_all

lemma search_repositories_rejected:
  assumes "term \<in> set searchTerms" "count_matches E term = None"
  shows "search_repositories E fs cwd searchTerms repos = []"
  using assms
  by (induction repos) (auto simp: Let_def search_rejected(1) split: sum.splits)

subsection \<open>Sorting by score\<close>

lemma set_insert_by: "set (insert_by cmp x ys) = insert x (set ys)"
  by (induction ys) auto

lemma sorted_insert_by:
  "sorted_wrt (\<lambda>a b. score b \<le> score a) ys \<Longrightarrow>
   sorted_wrt (\<lambda>a b. score b \<le> score a)
     (insert_by (\<lambda>a b. int (score b) - int (score a)) x ys)"
  by (induction ys) (auto simp: set_insert_by)

lemma filter_insert_by:
  "filter (\<lambda>r. score r = k) (insert_by (\<lambda>a b. int (score b) - int (score a)) x ys)
     = filter (\<lambda>r. score r = k) (x # ys)"
  by (induction ys) auto

lemma sorted_js_sort:
  "sorted_wrt (\<lambda>a b. score b \<le> score a) (js_sort (\<lambda>a b. int (score b) - int (score a)) xs)"
  by (induction xs) (simp_all add: js_sort_def sorted_insert_by)

lemma filter_js_sort:
  "filter (\<lambda>r. score r = k) (js_sort (\<lambda>a b. int (score b) - int (score a)) xs)
     = filter (\<lambda>r. score r = k) xs"
  by (induction xs) (simp_all add: js_sort_def filter_insert_by)

subsection \<open>Lines that contain a term\<close>

lemma startsWith_prefix: "startsWith s t \<longleftrightarrow> prefix t s"
  by (induction s t rule: startsWith.induct) auto

lemma js_includes_sublist: "js_includes s t \<longleftrightarrow> sublist t s"
  by (induction s) (auto simp: startsWith_prefix sublist_Cons_right)

lemma line_matches_iff:
  "line_matches searchTerms line \<longleftrightarrow>
   (\<exists>term \<in> set searchTerms. sublist term (toLowerCase line))"
  by (simp add: line_matches_def list_ex_iff js_includes_sublist)

lemma line_matches_fun:
  "line_matches searchTerms =
   (\<lambda>line. \<exists>term \<in> set searchTerms. sublist term (toLowerCase line))"
  by (rule ext) (rule line_matches_iff)

lemma length_filter_nth:
  "length (filter (\<lambda>i. P (xs ! i)) [0..<length xs]) = length (filter P xs)"
proof -
  have "filter P xs = filter P (map ((!) xs) [0..<length xs])"
    by (simp add: map_nth)
  also have "\<dots> = map ((!) xs) (filter (P \<circ> (!) xs) [0..<length xs])"
    by (simp add: filter_map)
  finally show ?thesis by (simp add: comp_def)
qed

lemma length_relevantLinesOf:
  "length (relevantLinesOf lines searchTerms) = length (filter (line_matches searchTerms) lines)"
  by (simp add: relevantLinesOf_def length_filter_nth)

subsection \<open>Matches lie within the string\<close>

text \<open>
  A match that starts within the string ends within it, not before its start: the
  conditions under which the matcher and the scan go on hold whenever an iteration or a
  match is not empty.
\<close>

declare ends.simps(11) [simp del]

lemma ends_bounds:
  "y \<in> set (ends ic r s x) \<Longrightarrow> x \<le> length s \<Longrightarrow> x \<le> y \<and> y \<le> length s"
proof (induction ic r s x arbitrary: y rule: ends.induct)
  case (6 ic a b s x)
  from 6(3) obtain z where z: "z \<in> set (ends ic a s x)" and y: "y \<in> set (ends ic b s z)"
    by auto
  from 6(1) [OF z 6(4)] have "x \<le> z" "z \<le> length s" by simp_all
  with 6(2) [OF z y] show ?case by simp
next
  case (9 ic g r s x)
  then show ?case by (auto simp: Let_def split: if_splits)
next
  case (10 ic g r s x)
  from 10(3) obtain z where z: "z \<in> set (ends ic r s x)"
      and y: "y \<in> set (ends ic (RQuant QStar g r) s z)"
    by auto
  from 10(1) [OF z 10(4)] have "x \<le> z" "z \<le> length s" by simp_all
  with 10(2) [OF z y] show ?case by simp
next
  case (11 ic g r s x)
  show ?case
  proof (cases "y = x")
    case True
    with 11(4) show ?thesis by simp
  next
    case False
    from 11(3) have "y \<in> set (concat (map (\<lambda>y. if x < y \<and> y \<le> length s
                                    then ends ic (RQuant QStar g r) s y else [])
                             (ends ic r s x))) \<or> y = x"
      by (auto simp: ends.simps(11) [of ic g r s x] Let_def split: if_splits)
    with False obtain z where z: "z \<in> set (ends ic r s x)" and zx: "x < z" "z \<le> length s"
        and y: "y \<in> set (ends ic (RQuant QStar g r) s z)"
      by (auto split: if_splits)
    from 11(2) [OF z _ y] zx show ?thesis by simp
  qed
qed (auto split: if_splits)

lemma match_at_bounds:
  "match_at ic r s x = Some e \<Longrightarrow> x \<le> length s \<Longrightarrow> x \<le> e \<and> e \<le> length s"
  using ends_bounds [of e ic r s x]
  by (auto simp: match_at_def split: list.splits)

subsection \<open>What the reader returns\<close>

text \<open>Whatever file the joined path names, its content ends the response.\<close>

lemma reader_returns_content:
  "fs_readFile fs (resolvedPath cwd docPath repo) = Inr doc \<Longrightarrow>
   suffix doc (readRepositoryDocument fs cwd docPath repo)"
  by (simp add: readRepositoryDocument_def Let_def suffix_def)

subsection \<open>Terms without syntax characters\<close>

text \<open>
  A literal term parses to the sequence of its characters, a match of that sequence is an
  occurrence of the term, and the global scan counts the occurrences from the left
  without overlap.
\<close>

declare match_all.simps [simp del]

lemma parse_loop_literal:
  "list_all (\<lambda>c. \<not> syntaxCharacter c) cs \<Longrightarrow>
   parse_loop stack (alts, ts, q) (cs @ rest)
     = parse_loop stack (alts, rev (map RChar cs) @ ts, if cs = [] then q else Atom) rest"
proof (induction cs arbitrary: ts q)
  case Nil
  then show ?case by simp
next
  case (Cons c cs)
  from Cons.prems have c: "\<not> syntaxCharacter c" and cs: "list_all (\<lambda>c. \<not> syntaxCharacter c) cs"
    by simp_all
  from c have "parse_loop stack (alts, ts, q) ((c # cs) @ rest)
                 = parse_loop stack (alts, RChar c # ts, Atom) (cs @ rest)"
    by (simp add: syntaxCharacter_def)
  also have "\<dots> = parse_loop stack (alts, rev (map RChar cs) @ RChar c # ts,
                        if cs = [] then Atom else Atom) rest"
    using Cons.IH [OF cs] by simp
  finally show ?case by simp
qed

lemma parse_pattern_literal:
  "list_all (\<lambda>c. \<not> syntaxCharacter c) t \<Longrightarrow>
   parse_pattern t = Some (mk_alternative (map RChar t))"
  using parse_loop_literal [of t "[]" "[]" "[]" NoAtom "[]"]
  by (simp add: parse_pattern_def rev_map)

lemma parse_pattern_group_literal:
  "list_all (\<lambda>c. \<not> syntaxCharacter c) t \<Longrightarrow>
   parse_pattern (''('' @ t @ '')'') = Some (RGroup (mk_alternative (map RChar t)))"
  using parse_loop_literal [of t "[([], [], NoAtom)]" "[]" "[]" NoAtom "'')''"]
  by (simp add: parse_pattern_def rev_map)


lemma startsWith_drop_Suc:
  "x < length s \<Longrightarrow> startsWith (drop x s) (c # t) \<longleftrightarrow> (s ! x = c \<and> startsWith (drop (Suc x) s) t)"
  by (simp add: Cons_nth_drop_Suc [symmetric])

lemma ends_literal:
  "ends False (mk_alternative (map RChar t)) s x
     = (if startsWith (drop x s) t then [x + length t] else [])"
proof (induction t arbitrary: x)
  case Nil
  then show ?case by simp
next
  case (Cons c t)
  show ?case
  proof (cases t)
    case Nil
    then show ?thesis
      by (cases "x < length s") (simp_all add: startsWith_drop_Suc char_matches_def)
  next
    case (Cons d u)
    have "ends False (mk_alternative (map RChar (c # t))) s x
            = concat (map (ends False (mk_alternative (map RChar t)) s) (ends False (RChar c) s x))"
      using Cons by simp
    then show ?thesis
      using Cons.IH [of "Suc x"]
      by (cases "x < length s") (simp_all add: startsWith_drop_Suc char_matches_def)
  qed
qed

lemma startsWith_length: "startsWith s t \<Longrightarrow> length t \<le> length s"
  by (induction s t rule: startsWith.induct) auto

lemma startsWith_Nil: "startsWith [] t \<longleftrightarrow> t = []"
  by (cases t) simp_all

lemma match_all_beyond: "length s < x \<Longrightarrow> match_all ic r s x = []"
  by (subst match_all.simps) simp

lemma substring_occurrences_drop:
  assumes "x < length s"
  shows "substring_occurrences t (drop x s)
           = (if t \<noteq> [] \<and> startsWith (drop x s) t
              then Suc (substring_occurrences t (drop (x + length t) s))
              else substring_occurrences t (drop (Suc x) s))"
proof -
  from assms have dr: "drop x s = s ! x # drop (Suc x) s"
    by (simp add: Cons_nth_drop_Suc)
  have "substring_occurrences t (s ! x # drop (Suc x) s)
          = (if t \<noteq> [] \<and> startsWith (s ! x # drop (Suc x) s) t
             then Suc (substring_occurrences t (drop (length t) (s ! x # drop (Suc x) s)))
             else substring_occurrences t (drop (Suc x) s))"
    by simp
  then show ?thesis
    by (simp add: dr [symmetric] add.commute)
qed

lemma match_all_literal:
  "t \<noteq> [] \<Longrightarrow> x \<le> length s \<Longrightarrow>
   length (match_all False (mk_alternative (map RChar t)) s x)
     = substring_occurrences t (drop x s)"
proof (induction "False" "mk_alternative (map RChar t)" s x rule: match_all.induct)
  case (1 s x)
  show ?case
  proof (cases "x = length s")
    case True
    with 1(4) have m: "match_at False (mk_alternative (map RChar t)) s x = None"
      by (simp add: match_at_def ends_literal startsWith_Nil)
    show ?thesis
      using True m by (subst match_all.simps) (simp add: match_all_beyond)
  next
    case False
    with 1(5) have lt: "x < length s" by simp
    then have dr: "drop x s = s ! x # drop (Suc x) s"
      by (simp add: Cons_nth_drop_Suc)
    show ?thesis
    proof (cases "startsWith (drop x s) t")
      case True
      then have m: "match_at False (mk_alternative (map RChar t)) s x = Some (x + length t)"
        by (simp add: match_at_def ends_literal)
      from True have le: "x + length t \<le> length s"
        using startsWith_length [of "drop x s" t] lt by simp
      from 1(4) have pos: "x < x + length t" "x + length t \<noteq> x" by simp_all
      have "length (match_all False (mk_alternative (map RChar t)) s (x + length t))
              = substring_occurrences t (drop (x + length t) s)"
        using 1(3) [OF _ m pos(2) pos(1) 1(4) le] lt by simp
      then show ?thesis
        using True m lt pos 1(4)
        by (subst match_all.simps) (simp add: substring_occurrences_drop)
    next
      case nomatch: False
      then have m: "match_at False (mk_alternative (map RChar t)) s x = None"
        by (simp add: match_at_def ends_literal)
      have "length (match_all False (mk_alternative (map RChar t)) s (Suc x))
              = substring_occurrences t (drop (Suc x) s)"
        using 1(1) [OF _ m 1(4)] lt by simp
      then show ?thesis
        using nomatch m lt
        by (subst match_all.simps) (simp add: substring_occurrences_drop)
    qed
  qed
qed


lemma js_includes_hd: "js_includes s (c # u) \<Longrightarrow> c \<in> set s"
  by (induction s) auto

lemma literal_not_syntax:
  "literal_term t \<Longrightarrow> c \<in> set t \<Longrightarrow> \<not> syntaxCharacter c"
  by (simp add: literal_term_def list_all_iff)

lemma modelled_literal:
  assumes "literal_term t"
  shows "modelled_syntax t" and "modelled_syntax (''('' @ t @ '')'')"
proof -
  have chars: "\<And>c. c \<in> set t \<Longrightarrow>
      c \<notin> set [CHR 0x5C, CHR ''['', CHR '']'', CHR ''{'', CHR ''}''] \<and> c \<noteq> CHR ''('' \<and> c \<noteq> CHR ''?''"
    using literal_not_syntax [OF assms] by (auto simp: syntaxCharacter_def)
  have no_open: "\<not> js_includes t ''(?''" "\<not> js_includes (t @ '')'') ''(?''"
    using chars js_includes_hd [of t "CHR ''(''" "''?''"]
      js_includes_hd [of "t @ '')''" "CHR ''(''" "''?''"] by auto
  from assms obtain c u where t: "t = c # u"
    by (cases t) (simp_all add: literal_term_def)
  with chars have "c \<noteq> CHR ''?''" by simp
  with t have no_start: "\<not> startsWith (''('' @ t @ '')'') ''(?''" by simp
  show "modelled_syntax t"
    using chars no_open by (simp add: modelled_syntax_def list_all_iff)
  show "modelled_syntax (''('' @ t @ '')'')"
    using chars no_open no_start by (auto simp: modelled_syntax_def list_all_iff)
qed

lemma count_matches_literal:
  assumes "literal_term t"
  shows "count_matches (js_regexp beyond) t = Some (substring_occurrences t)"
proof -
  from assms have ne: "t \<noteq> []" and all: "list_all (\<lambda>c. \<not> syntaxCharacter c) t"
    by (simp_all add: literal_term_def)
  have "\<And>s. length (match_all False (mk_alternative (map RChar t)) s 0)
              = substring_occurrences t s"
    using match_all_literal [OF ne, of 0] by simp
  then show ?thesis
    by (simp add: js_regexp_def modelled_literal(1) [OF assms] parse_pattern_literal [OF all])
qed

lemma highlight_matches_literal:
  assumes "literal_term t"
  shows "\<exists>f. highlight_matches (js_regexp beyond) (''('' @ t @ '')'') = Some f"
proof -
  from assms have all: "list_all (\<lambda>c. \<not> syntaxCharacter c) t"
    by (simp add: literal_term_def)
  show ?thesis
    using modelled_literal(2) [OF assms] parse_pattern_group_literal [OF all]
    by (simp add: js_regexp_def)
qed

lemma score_loop_literal:
  "list_all literal_term searchTerms \<Longrightarrow>
   score_loop (js_regexp beyond) contentLower searchTerms sc
     = Inr (sc + sum_list (map (\<lambda>t. substring_occurrences t contentLower) searchTerms))"
  by (induction searchTerms arbitrary: sc) (simp_all add: count_matches_literal)

lemma highlight_loop_literal:
  "list_all literal_term searchTerms \<Longrightarrow>
   \<exists>ex'. highlight_loop (js_regexp beyond) searchTerms ex = Inr ex'"
proof (induction searchTerms arbitrary: ex)
  case Nil
  then show ?case by simp
next
  case (Cons t ts)
  then obtain f where "highlight_matches (js_regexp beyond) (''('' @ t @ '')'') = Some f"
    using highlight_matches_literal [of t beyond] by auto
  then show ?case using Cons by simp
qed

lemma createExcerpt_literal:
  "list_all literal_term searchTerms \<Longrightarrow>
   \<exists>ex. createExcerpt (js_regexp beyond) relevantLines searchTerms = Inr ex"
  using highlight_loop_literal [of searchTerms beyond "content (hd relevantLines)"]
  by (auto simp: createExcerpt_def)

text \<open>
  For literal terms \<open>findMatches\<close> returns, the score of its result is the number of
  occurrences of the terms in the lower-cased content, and there is a result exactly when
  that number is positive.
\<close>

lemma literal_terms_score:
  assumes "list_all literal_term searchTerms"
  shows "\<exists>results.
           findMatches (js_regexp beyond) cwd doc searchTerms filePath repo = Inr results \<and>
           (results \<noteq> [] \<longleftrightarrow>
              0 < sum_list (map (\<lambda>t. substring_occurrences t (toLowerCase doc)) searchTerms)) \<and>
           list_all (\<lambda>r. score r =
              sum_list (map (\<lambda>t. substring_occurrences t (toLowerCase doc)) searchTerms)) results"
proof -
  define total where
    "total = sum_list (map (\<lambda>t. substring_occurrences t (toLowerCase doc)) searchTerms)"
  have sc: "score_loop (js_regexp beyond) (toLowerCase doc) searchTerms 0 = Inr total"
    by (simp add: score_loop_literal [OF assms] total_def)
  obtain ex where ex: "createExcerpt (js_regexp beyond)
      (relevantLinesOf (split_on CHR 0x0A doc) searchTerms) searchTerms = Inr ex"
    using createExcerpt_literal [OF assms] by blast
  show ?thesis
  proof (cases "total = 0")
    case True
    then have "findMatches (js_regexp beyond) cwd doc searchTerms filePath repo = Inr []"
      by (simp add: findMatches_def Let_def sc)
    then show ?thesis
      using True unfolding total_def [symmetric] by simp
  next
    case False
    then have "\<exists>r. findMatches (js_regexp beyond) cwd doc searchTerms filePath repo = Inr [r] \<and>
                   score r = total"
      by (simp add: findMatches_def Let_def sc ex)
    then show ?thesis
      using False unfolding total_def [symmetric] by auto
  qed
qed

section \<open>The properties\<close>

text \<open>
  C1. The score is specified as the number of non-overlapping occurrences of each term as
  a substring of the lower-cased content, summed over the terms, a result being emitted
  exactly when that sum is positive. \<open>findMatches\<close> counts the matches of the term read
  as a regular expression instead: for the term \<open>v1.0\<close> and the content \<open>v100\<close>, in which
  the term does not occur, it emits a result of score 1, whose \<open>matchCount\<close> is 0 and
  whose excerpt is empty. (For literal terms the score is as specified:
  \<open>literal_terms_score\<close>.)
\<close>

theorem score_counts_regexp_matches:
  "findMatches (js_regexp beyond) ''/app'' ''v100'' [''v1.0''] ''/app/repos/docs/a.md'' ''docs''
     = Inr [\<lparr>title = ''a'', path = ''docs/a.md'', repository = ''docs'',
              score = 1, excerpt = [], matchCount = 0\<rparr>] \<and>
   substring_occurrences ''v1.0'' (toLowerCase ''v100'') = 0 \<and>
   \<not> js_includes (toLowerCase ''v100'') ''v1.0''"
  by code_simp

text \<open>
  C2. The empty query is specified to have no search terms and no results. Splitting the
  empty string gives one term, the empty string, whose regular expression matches at
  every index: on \<open>sample_fs\<close> the empty query returns every readable searchable
  document, the first of them with score 11 for a content of 10 characters. A query of one
  space has two such terms.
\<close>

theorem empty_query_matches_everything:
  "searchTermsOf [] = [[]] \<and>
   map (\<lambda>r. (path r, score r)) (searchRepositoryDocuments (js_regexp beyond) sample_fs ''/app'' [])
     = [(''docs/a.md'', 11), (''core/README'', 7), (''docs/sub/d.md'', 5), (''docs/sub/e.txt'', 5)] \<and>
   searchTermsOf '' '' = [[], []] \<and>
   map (\<lambda>r. (path r, score r)) (searchRepositoryDocuments (js_regexp beyond) sample_fs ''/app'' '' '')
     = [(''docs/a.md'', 22), (''core/README'', 14), (''docs/sub/d.md'', 10), (''docs/sub/e.txt'', 10)]"
  by code_simp

text \<open>
  C3. For every query the list that \<open>searchRepositoryDocuments\<close> returns is sorted by
  score, highest first, and the results of any one score stand in the order in which the
  traversal met them (\<open>collectedResults\<close> is the list before sorting).
\<close>

theorem search_sorted_stable:
  "sorted_wrt (\<lambda>a b. score b \<le> score a) (searchRepositoryDocuments E fs cwd query) \<and>
   (\<forall>k. filter (\<lambda>r. score r = k) (searchRepositoryDocuments E fs cwd query)
          = filter (\<lambda>r. score r = k) (collectedResults E fs cwd query))"
  by (simp add: searchRepositoryDocuments_def sorted_js_sort filter_js_sort)

theorem search_sorted_stable_witness:
  "map (\<lambda>r. (path r, score r)) (collectedResults (js_regexp no_regexp) sample_fs ''/app'' ''c'')
     = [(''docs/a.md'', 1), (''docs/sub/d.md'', 3), (''docs/sub/e.txt'', 1), (''core/README'', 2)] \<and>
   map (\<lambda>r. (path r, score r))
       (searchRepositoryDocuments (js_regexp no_regexp) sample_fs ''/app'' ''c'')
     = [(''docs/sub/d.md'', 3), (''core/README'', 2), (''docs/a.md'', 1), (''docs/sub/e.txt'', 1)] \<and>
   sorted_wrt (\<lambda>a b. score b \<le> score a)
     (searchRepositoryDocuments (js_regexp no_regexp) sample_fs ''/app'' ''c'')"
proof -
  have "map (\<lambda>r. (path r, score r))
          (collectedResults (js_regexp no_regexp) sample_fs ''/app'' ''c'')
     = [(''docs/a.md'', 1), (''docs/sub/d.md'', 3), (''docs/sub/e.txt'', 1), (''core/README'', 2)]"
    by code_simp
  moreover have "map (\<lambda>r. (path r, score r))
       (searchRepositoryDocuments (js_regexp no_regexp) sample_fs ''/app'' ''c'')
     = [(''docs/sub/d.md'', 3), (''core/README'', 2), (''docs/a.md'', 1), (''docs/sub/e.txt'', 1)]"
    by code_simp
  ultimately show ?thesis
    using search_sorted_stable [of "js_regexp no_regexp" sample_fs "''/app''" "''c''"] by simp
qed

text \<open>
  C4. \<open>isSearchableFile\<close> holds exactly when the lower-cased extension of the file name
  is in the allow-list or the name is \<open>README\<close> or \<open>LICENSE\<close>; and for every engine,
  directory and list of search terms the walk finds the same results when every file
  that is not eligible is removed from the tree, whatever that file contains.
\<close>

theorem ineligible_never_contributes:
  "(isSearchableFile filename \<longleftrightarrow>
      toLowerCase (extname filename) \<in> set searchableExtensions \<or>
      filename = ''README'' \<or> filename = ''LICENSE'') \<and>
   searchInDirectory E cwd (prune ineligibleFile n) dirPath repo searchTerms
     = searchInDirectory E cwd n dirPath repo searchTerms"
proof -
  have "\<forall>name n dirPath. ineligibleFile name n \<longrightarrow>
          searchEntry E cwd name n dirPath repo searchTerms = []"
  proof (intro allI impI)
    fix name n dirPath
    assume "ineligibleFile name n"
    then show "searchEntry E cwd name n dirPath repo searchTerms = []"
      by (cases n) (simp_all add: ineligibleFile_def searchEntry_def Let_def)
  qed
  then show ?thesis
    by (simp add: search_prune(1) isSearchableFile_def)
qed

theorem ineligible_never_contributes_witness:
  "\<not> isSearchableFile ''b.png'' \<and> isSearchableFile ''A.MD'' \<and> isSearchableFile ''README'' \<and>
   \<not> isSearchableFile ''readme'' \<and>
   prune ineligibleFile sample_docs \<noteq> sample_docs \<and>
   map (\<lambda>r. (path r, score r))
     (searchInDirectory (js_regexp no_regexp) ''/app'' sample_docs ''/app/repos/docs'' ''docs'' [''c''])
     = [(''docs/a.md'', 1), (''docs/sub/d.md'', 3), (''docs/sub/e.txt'', 1)] \<and>
   map (\<lambda>r. (path r, score r))
     (searchInDirectory (js_regexp no_regexp) ''/app'' (prune ineligibleFile sample_docs)
        ''/app/repos/docs'' ''docs'' [''c''])
     = [(''docs/a.md'', 1), (''docs/sub/d.md'', 3), (''docs/sub/e.txt'', 1)]"
proof -
  have a: "\<not> isSearchableFile ''b.png'' \<and> isSearchableFile ''A.MD'' \<and>
           isSearchableFile ''README'' \<and> \<not> isSearchableFile ''readme''"
    by code_simp
  have b: "prune ineligibleFile sample_docs \<noteq> sample_docs"
    by code_simp
  have c: "map (\<lambda>r. (path r, score r))
     (searchInDirectory (js_regexp no_regexp) ''/app'' sample_docs ''/app/repos/docs'' ''docs'' [''c''])
     = [(''docs/a.md'', 1), (''docs/sub/d.md'', 3), (''docs/sub/e.txt'', 1)]"
    by code_simp
  show ?thesis
    using a b c ineligible_never_contributes [of "''b.png''" "js_regexp no_regexp" "''/app''"
        sample_docs "''/app/repos/docs''" "''docs''" "[''c'']"]
    by simp
qed

text \<open>
  C5. A directory is excluded when its name starts with a dot or is one of
  \<open>node_modules\<close>, \<open>.next\<close>, \<open>dist\<close>, \<open>build\<close>, \<open>storybook-static\<close>; the walk finds the
  same results when every excluded directory, with all that lies under it, is removed from
  the tree: it never descends into one.
\<close>

theorem excluded_never_descended:
  "(excludedDirectory name \<longleftrightarrow>
      startsWith name ''.'' \<or>
      name \<in> {''node_modules'', ''.next'', ''dist'', ''build'', ''storybook-static''}) \<and>
   searchInDirectory E cwd (prune excludedEntry n) dirPath repo searchTerms
     = searchInDirectory E cwd n dirPath repo searchTerms"
proof -
  have "\<forall>name n dirPath. excludedEntry name n \<longrightarrow>
          searchEntry E cwd name n dirPath repo searchTerms = []"
  proof (intro allI impI)
    fix name n dirPath
    assume "excludedEntry name n"
    then show "searchEntry E cwd name n dirPath repo searchTerms = []"
      by (cases n) (auto simp: excludedEntry_def excludedDirectory_def searchEntry_def Let_def)
  qed
  then show ?thesis
    by (auto simp: search_prune(1) excludedDirectory_def)
qed

theorem excluded_never_descended_witness:
  "excludedDirectory ''.git'' \<and> excludedDirectory ''node_modules'' \<and> \<not> excludedDirectory ''sub'' \<and>
   prune excludedEntry sample_docs
     = Dir [(''a.md'', File ''I like c++''),
            (''b.png'', File ''c c c c''),
            (''locked.md'', UnreadableFile),
            (''private'', UnlistableDir),
            (''sub'', Dir [(''d.md'', File ''xccc''), (''e.txt'', File ''ab c'')])] \<and>
   map (\<lambda>r. (path r, score r))
     (searchInDirectory (js_regexp no_regexp) ''/app'' sample_docs ''/app/repos/docs'' ''docs'' [''c''])
     = [(''docs/a.md'', 1), (''docs/sub/d.md'', 3), (''docs/sub/e.txt'', 1)] \<and>
   map (\<lambda>r. (path r, score r))
     (searchInDirectory (js_regexp no_regexp) ''/app'' (prune excludedEntry sample_docs)
        ''/app/repos/docs'' ''docs'' [''c''])
     = [(''docs/a.md'', 1), (''docs/sub/d.md'', 3), (''docs/sub/e.txt'', 1)]"
proof -
  have a: "excludedDirectory ''.git'' \<and> excludedDirectory ''node_modules'' \<and>
           \<not> excludedDirectory ''sub''"
    by code_simp
  have b: "prune excludedEntry sample_docs
     = Dir [(''a.md'', File ''I like c++''),
            (''b.png'', File ''c c c c''),
            (''locked.md'', UnreadableFile),
            (''private'', UnlistableDir),
            (''sub'', Dir [(''d.md'', File ''xccc''), (''e.txt'', File ''ab c'')])]"
    by code_simp
  have c: "map (\<lambda>r. (path r, score r))
     (searchInDirectory (js_regexp no_regexp) ''/app'' sample_docs ''/app/repos/docs'' ''docs'' [''c''])
     = [(''docs/a.md'', 1), (''docs/sub/d.md'', 3), (''docs/sub/e.txt'', 1)]"
    by code_simp
  have d: "searchInDirectory (js_regexp no_regexp) ''/app'' (prune excludedEntry sample_docs)
             ''/app/repos/docs'' ''docs'' [''c'']
           = searchInDirectory (js_regexp no_regexp) ''/app'' sample_docs
               ''/app/repos/docs'' ''docs'' [''c'']"
    using excluded_never_descended [of "''.git''" "js_regexp no_regexp" "''/app''"
        sample_docs "''/app/repos/docs''" "''docs''" "[''c'']"]
    by (rule conjunct2)
  from c have "map (\<lambda>r. (path r, score r))
     (searchInDirectory (js_regexp no_regexp) ''/app'' (prune excludedEntry sample_docs)
        ''/app/repos/docs'' ''docs'' [''c''])
     = [(''docs/a.md'', 1), (''docs/sub/d.md'', 3), (''docs/sub/e.txt'', 1)]"
    by (simp only: d)
  with a b c show ?thesis
    by (intro conjI) simp_all
qed

text \<open>
  C6. When \<open>findMatches\<close> returns, it returns at most one result, and the \<open>matchCount\<close> of
  that result is the number of lines whose lower-cased text contains at least one
  search term as a substring.
\<close>

theorem findMatches_one_result:
  assumes "findMatches E cwd doc searchTerms filePath repo = Inr results"
  shows "length results \<le> 1 \<and>
         (\<forall>r \<in> set results.
            matchCount r =
              length (filter (\<lambda>line. \<exists>term \<in> set searchTerms. sublist term (toLowerCase line))
                        (split_on CHR 0x0A doc)))"
  using assms
  by (auto simp: findMatches_def Let_def length_relevantLinesOf line_matches_fun
           split: sum.splits if_splits)

theorem findMatches_one_result_witness:
  "findMatches (js_regexp no_regexp) ''/app''
     (''foo foo'' @ [CHR 0x0A] @ ''bar'' @ [CHR 0x0A] @ ''FOO'') [''foo'']
     ''/app/repos/docs/a.md'' ''docs''
     = Inr [\<lparr>title = ''a'', path = ''docs/a.md'', repository = ''docs'', score = 3,
              excerpt = ''**foo** **foo**'' @ [CHR 0x0A] @ ''bar'' @ [CHR 0x0A] @ ''**FOO**'',
              matchCount = 2\<rparr>] \<and>
   length (filter (\<lambda>line. \<exists>term \<in> set [''foo'']. sublist term (toLowerCase line))
             (split_on CHR 0x0A (''foo foo'' @ [CHR 0x0A] @ ''bar'' @ [CHR 0x0A] @ ''FOO''))) = 2"
proof -
  have found: "findMatches (js_regexp no_regexp) ''/app''
     (''foo foo'' @ [CHR 0x0A] @ ''bar'' @ [CHR 0x0A] @ ''FOO'') [''foo'']
     ''/app/repos/docs/a.md'' ''docs''
     = Inr [\<lparr>title = ''a'', path = ''docs/a.md'', repository = ''docs'', score = 3,
              excerpt = ''**foo** **foo**'' @ [CHR 0x0A] @ ''bar'' @ [CHR 0x0A] @ ''**FOO**'',
              matchCount = 2\<rparr>]"
    by code_simp
  from findMatches_one_result [OF found] found show ?thesis by simp
qed

text \<open>
  C7. With no heading among the first ten lines the title is specified to be the file
  name without its extension, dashes and underscores turned into spaces.
  \<open>getDocumentTitle\<close> removes the first occurrence of the extension's text instead of
  the extension: the title of \<open>notes.mdx.md\<close>, whose extension is \<open>.md\<close>, comes out as
  \<open>notesx.md\<close>. (The two examples of the specification come out as it says:
  \<open>title_examples\<close>.)
\<close>

theorem title_fallback_first_occurrence:
  "extname ''notes.mdx.md'' = ''.md'' \<and>
   getDocumentTitle ''no heading here'' ''notes.mdx.md'' = ''notesx.md''"
  by code_simp

lemma title_examples:
  "getDocumentTitle (''# Hello World'' @ [CHR 0x0A] @ ''text'') ''x.md'' = ''Hello World'' \<and>
   getDocumentTitle ''no heading here'' ''my-doc.md'' = ''my doc''"
  by code_simp

text \<open>
  C8. Where the reading of a file or the listing of a directory throws, the failure is
  absorbed: the walk finds the same results when every file whose reading throws and every
  directory whose listing throws is removed from the tree, so each contributes nothing and
  the entries beside it are searched as before. A directory whose listing throws yields
  the empty list, and so does a file whose reading throws; the walk itself returns a list
  of results in every case.
\<close>

theorem failures_absorbed:
  "searchInDirectory E cwd (prune failingEntry n) dirPath repo searchTerms
     = searchInDirectory E cwd n dirPath repo searchTerms \<and>
   (isl (readdir n dirPath) \<longrightarrow> searchInDirectory E cwd n dirPath repo searchTerms = []) \<and>
   (isFile n \<and> isl (readFile n (path_join [dirPath, name])) \<longrightarrow>
      searchEntry E cwd name n dirPath repo searchTerms = [])"
proof -
  have "\<forall>name n dirPath. failingEntry name n \<longrightarrow>
          searchEntry E cwd name n dirPath repo searchTerms = []"
  proof (intro allI impI)
    fix name n dirPath
    assume "failingEntry name n"
    then show "searchEntry E cwd name n dirPath repo searchTerms = []"
      by (cases n) (simp_all add: failingEntry_def searchEntry_def Let_def)
  qed
  then have "searchInDirectory E cwd (prune failingEntry n) dirPath repo searchTerms
               = searchInDirectory E cwd n dirPath repo searchTerms"
    by (simp add: search_prune(1))
  moreover have "isFile n \<and> isl (readFile n (path_join [dirPath, name])) \<longrightarrow>
                   searchEntry E cwd name n dirPath repo searchTerms = []"
    by (cases n) (simp_all add: searchEntry_def Let_def)
  ultimately show ?thesis
    by simp
qed

theorem failures_absorbed_witness:
  "prune failingEntry sample_docs
     = Dir [(''a.md'', File ''I like c++''),
            (''b.png'', File ''c c c c''),
            (''node_modules'', Dir [(''c.md'', File ''c c c'')]),
            (''.git'', Dir [(''HEAD.txt'', File ''c'')]),
            (''sub'', Dir [(''d.md'', File ''xccc''),
                           (''build'', Dir [(''out.js'', File ''cc'')]),
                           (''e.txt'', File ''ab c'')])] \<and>
   map (\<lambda>r. (path r, score r))
     (searchInDirectory (js_regexp no_regexp) ''/app'' sample_docs ''/app/repos/docs'' ''docs'' [''c''])
     = [(''docs/a.md'', 1), (''docs/sub/d.md'', 3), (''docs/sub/e.txt'', 1)] \<and>
   map (\<lambda>r. (path r, score r))
     (searchInDirectory (js_regexp no_regexp) ''/app'' (prune failingEntry sample_docs)
        ''/app/repos/docs'' ''docs'' [''c''])
     = [(''docs/a.md'', 1), (''docs/sub/d.md'', 3), (''docs/sub/e.txt'', 1)] \<and>
   isl (readdir UnlistableDir ''/app/repos/docs/private'') \<and>
   searchInDirectory (js_regexp no_regexp) ''/app'' UnlistableDir ''/app/repos/docs/private''
     ''docs'' [''c''] = [] \<and>
   isFile UnreadableFile \<and>
   isl (readFile UnreadableFile (path_join [''/app/repos/docs'', ''locked.md''])) \<and>
   searchEntry (js_regexp no_regexp) ''/app'' ''locked.md'' UnreadableFile ''/app/repos/docs''
     ''docs'' [''c''] = []"
proof -
  have b: "prune failingEntry sample_docs
     = Dir [(''a.md'', File ''I like c++''),
            (''b.png'', File ''c c c c''),
            (''node_modules'', Dir [(''c.md'', File ''c c c'')]),
            (''.git'', Dir [(''HEAD.txt'', File ''c'')]),
            (''sub'', Dir [(''d.md'', File ''xccc''),
                           (''build'', Dir [(''out.js'', File ''cc'')]),
                           (''e.txt'', File ''ab c'')])]"
    by code_simp
  have c: "map (\<lambda>r. (path r, score r))
     (searchInDirectory (js_regexp no_regexp) ''/app'' sample_docs ''/app/repos/docs'' ''docs'' [''c''])
     = [(''docs/a.md'', 1), (''docs/sub/d.md'', 3), (''docs/sub/e.txt'', 1)]"
    by code_simp
  have d: "searchInDirectory (js_regexp no_regexp) ''/app'' (prune failingEntry sample_docs)
             ''/app/repos/docs'' ''docs'' [''c'']
           = searchInDirectory (js_regexp no_regexp) ''/app'' sample_docs
               ''/app/repos/docs'' ''docs'' [''c'']"
    using failures_absorbed [of "js_regexp no_regexp" "''/app''" sample_docs
        "''/app/repos/docs''" "''docs''" "[''c'']" "''locked.md''"]
    by (rule conjunct1)
  from c have e: "map (\<lambda>r. (path r, score r))
     (searchInDirectory (js_regexp no_regexp) ''/app'' (prune failingEntry sample_docs)
        ''/app/repos/docs'' ''docs'' [''c''])
     = [(''docs/a.md'', 1), (''docs/sub/d.md'', 3), (''docs/sub/e.txt'', 1)]"
    by (simp only: d)
  have f: "isl (readdir UnlistableDir ''/app/repos/docs/private'')"
    by simp
  have g: "isFile UnreadableFile \<and>
           isl (readFile UnreadableFile (path_join [''/app/repos/docs'', ''locked.md'']))"
    by simp
  have h: "searchInDirectory (js_regexp no_regexp) ''/app'' UnlistableDir
             ''/app/repos/docs/private'' ''docs'' [''c''] = []"
    using failures_absorbed [of "js_regexp no_regexp" "''/app''" UnlistableDir
        "''/app/repos/docs/private''" "''docs''" "[''c'']" "''private''"] f
    by blast
  have i: "searchEntry (js_regexp no_regexp) ''/app'' ''locked.md'' UnreadableFile
             ''/app/repos/docs'' ''docs'' [''c''] = []"
    using failures_absorbed [of "js_regexp no_regexp" "''/app''" UnreadableFile
        "''/app/repos/docs''" "''docs''" "[''c'']" "''locked.md''"] g
    by blast
  from b c e f g h i show ?thesis
    by (intro conjI) simp_all
qed

text \<open>
  C8 as first stated also has a file skipped when it cannot be decoded as text. Decoding
  never throws: a searchable file whose bytes are not well-formed UTF-8 is read with
  replacement characters in their place, searched and returned, here with the two
  occurrences of the term that its bytes hold.
\<close>

theorem undecodable_file_is_searched:
  "isSearchableFile ''x.md'' \<and>
   \<not> wellFormedUTF8 [CHR 0xFF, CHR 0xFE, CHR ''c'', CHR 0x80, CHR '' '', CHR ''c''] \<and>
   readFile (File [CHR 0xFF, CHR 0xFE, CHR ''c'', CHR 0x80, CHR '' '', CHR ''c''])
       ''/app/repos/docs/x.md''
     = Inr [CHR 0xFF, CHR 0xFF, CHR ''c'', CHR 0xFF, CHR '' '', CHR ''c''] \<and>
   map (\<lambda>r. (path r, score r, matchCount r))
     (searchInDirectory (js_regexp no_regexp) ''/app''
        (Dir [(''x.md'', File [CHR 0xFF, CHR 0xFE, CHR ''c'', CHR 0x80, CHR '' '', CHR ''c''])])
        ''/app/repos/docs'' ''docs'' [''c''])
     = [(''docs/x.md'', 2, 1)]"
  by code_simp

text \<open>
  C9. If one term of the query is a pattern that the \<open>RegExp\<close> constructor rejects, the
  search returns the empty list, whatever the documents contain.
\<close>

theorem invalid_term_empties_search:
  assumes "term \<in> set (searchTermsOf query)" and "count_matches E term = None"
  shows "searchRepositoryDocuments E fs cwd query = []"
  using assms
  by (simp add: searchRepositoryDocuments_def collectedResults_def
        search_repositories_rejected js_sort_def)

theorem invalid_term_empties_search_witness:
  "''c++'' \<in> set (searchTermsOf ''like C++'') \<and>
   count_matches (js_regexp no_regexp) ''c++'' = None \<and>
   count_matches (js_regexp no_regexp) ''('' = None \<and>
   searchRepositoryDocuments (js_regexp no_regexp) sample_fs ''/app'' ''like C++'' = [] \<and>
   js_includes (toLowerCase ''I like c++'') ''c++'' \<and>
   map (\<lambda>r. (path r, score r))
     (searchRepositoryDocuments (js_regexp no_regexp) sample_fs ''/app'' ''like'')
     = [(''docs/a.md'', 1)]"
proof -
  have a: "''c++'' \<in> set (searchTermsOf ''like C++'')" by code_simp
  have b: "count_matches (js_regexp no_regexp) ''c++'' = None" by code_simp
  have c: "count_matches (js_regexp no_regexp) ''('' = None" by code_simp
  have d: "js_includes (toLowerCase ''I like c++'') ''c++''" by code_simp
  have e: "map (\<lambda>r. (path r, score r))
     (searchRepositoryDocuments (js_regexp no_regexp) sample_fs ''/app'' ''like'')
     = [(''docs/a.md'', 1)]" by code_simp
  from invalid_term_empties_search [OF a b] a b c d e show ?thesis by simp
qed

text \<open>
  C10. The reader joins the working directory, \<open>repos\<close>, the repository and the given
  path, and reads what the result names (\<open>reader_returns_content\<close>): for the path \<open>../../../etc/passwd\<close> in the
  repository \<open>docs\<close> that is \<open>/etc/passwd\<close>, outside \<open>/app/repos\<close>, and the response
  carries the content of that file.
\<close>

theorem reader_leaves_repositories:
  "resolvedPath ''/app'' ''../../../etc/passwd'' (Some ''docs'') = ''/etc/passwd'' \<and>
   \<not> prefix (components (path_join [''/app'', ''repos''])) (components ''/etc/passwd'') \<and>
   fs_readFile sample_fs ''/etc/passwd'' = Inr ''root:x:0:0'' \<and>
   readRepositoryDocument sample_fs ''/app'' ''../../../etc/passwd'' (Some ''docs'')
     = ''# passwd'' @ nl @ nl @
       ''**Path:** '' @ [CHR 0x60] @ ''../../../etc/passwd'' @ [CHR 0x60] @ nl @
       ''**Repository:** docs'' @ nl @
       ''**File:** passwd'' @ nl @ nl @
       ''---'' @ nl @ nl @ ''root:x:0:0''"
  by code_simp

end
